theory Spec2Isabelle
  imports Main "HOL-Library.Word"
begin

section \<open>UMI bridge: device sessions, the connection handler and the audio relay\<close>

text \<open>
  A shallow embedding of \<^verbatim>\<open>Bridge.py\<close>. The bridge is an asyncio program: every
  handler of one connection runs to completion before the next message of that connection
  is read, so the per-connection code is modelled as sequential state passing. Calls into the
  websocket and the room client are external; each such call is recorded as an event together
  with the outcome the environment gave it, and the outcomes are inputs of the model.
\<close>

subsection \<open>Sample buffers\<close>

type_synonym byte = "8 word"
type_synonym int16 = "16 word"

datatype exn =
    ValueError          \<comment> \<open>\<^verbatim>\<open>np.frombuffer\<close>: buffer size not a multiple of the element size\<close>
  | AttributeError      \<comment> \<open>\<^verbatim>\<open>msg.get\<close> on a JSON value that is not an object\<close>
  | ConnectFailed       \<comment> \<open>\<^verbatim>\<open>room.connect\<close> raised\<close>
  | PublishFailed       \<comment> \<open>\<^verbatim>\<open>publish_track\<close> raised\<close>

text \<open>\<^verbatim>\<open>np.frombuffer(buf, dtype=np.int16)\<close> on little-endian 16-bit samples.\<close>

fun le_samples :: "byte list \<Rightarrow> int16 list" where
  "le_samples (lo # hi # bs) = (or (ucast lo) (push_bit 8 (ucast hi))) # le_samples bs"
| "le_samples _ = []"

definition frombuffer :: "byte list \<Rightarrow> exn + int16 list" where
  "frombuffer buf = (if even (length buf) then Inr (le_samples buf) else Inl ValueError)"

text \<open>\<^verbatim>\<open>samples.tobytes()\<close>.\<close>

fun tobytes :: "int16 list \<Rightarrow> byte list" where
  "tobytes [] = []"
| "tobytes (w # ws) = ucast w # ucast (drop_bit 8 w) # tobytes ws"

text \<open>The slice \<^verbatim>\<open>samples[::2]\<close>.\<close>

fun stride2 :: "'a list \<Rightarrow> 'a list" where
  "stride2 (x # y # xs) = x # stride2 xs"
| "stride2 [x] = [x]"
| "stride2 [] = []"


subsection \<open>Data model\<close>

definition SAMPLE_RATE :: nat where "SAMPLE_RATE = 16000"
definition CHANNELS :: nat where "CHANNELS = 1"
definition LIVEKIT_URL :: string where "LIVEKIT_URL = ''wss://your-project.livekit.cloud''"

text \<open>
  Values read out of a decoded JSON object with \<^verbatim>\<open>msg.get(key)\<close>: \<^verbatim>\<open>None\<close> for an
  absent key or a JSON null, a string, or any other JSON value.
\<close>

datatype pyval = PyNone | PyStr string | PyOther

record AudioFrame =
  sample_rate :: nat
  num_channels :: nat
  samples_per_channel :: nat
  data :: "int16 list"

datatype room = Room nat   \<comment> \<open>an \<^verbatim>\<open>rtc.Room()\<close> object, by identity\<close>

datatype audio_source = AudioSource nat nat

text \<open>
  The access token of \<^verbatim>\<open>_create_token\<close>: the identity \<^verbatim>\<open>device-<device_id>\<close> and
  the room \<^verbatim>\<open>umi-<session_id>\<close> it is granted for, kept by the values they are built from.
\<close>

datatype token = AccessToken nat pyval

text \<open>
  \<^verbatim>\<open>DeviceSession\<close>. The \<^verbatim>\<open>websocket\<close> attribute is the connection itself; the
  device id is \<^verbatim>\<open>id(websocket)\<close>, and what is written to the socket appears as events.
\<close>

record DeviceSession =
  device_id :: nat
  session_id :: pyval
  room :: "room option"
  audio_source :: "audio_source option"
  is_active :: bool
  audio_frames_sent :: int

definition DeviceSession_init :: "nat \<Rightarrow> DeviceSession" where
  "DeviceSession_init did =
     \<lparr>device_id = did, session_id = PyNone, room = None, audio_source = None,
      is_active = False, audio_frames_sent = 0\<rparr>"

subsection \<open>Effects\<close>

datatype log_line =
    LogStarting | LogConnected | LogConnectFailed | LogPublished | LogEnding
  | LogStreaming | LogAudioError | LogPlaybackStart | LogWsClosed | LogForwardError
  | LogAgentFinished | LogSendError | LogDeviceConnected | LogDeviceDisconnected
  | LogError | LogCleanedUp | LogDeviceInfo | LogInvalidJson

datatype out_msg =
    Ready
  | SessionStarted pyval
  | SessionEnded pyval int
  | AgentSpeakingStart
  | AgentSpeakingEnd

datatype send_result = SendOk | SendConnectionClosed | SendError

text \<open>An event is one external call, with the outcome it had.\<close>

datatype event =
    Log log_line
  | WsSendText out_msg bool
  | WsSendBinary "byte list" send_result
  | RoomConnect room string token bool
  | RoomPublish room bool
  | RoomOnTrackSubscribed room
  | RoomDisconnect room
  | CaptureFrame AudioFrame bool

text \<open>
  What the environment answers during the handling of one message: the identity of the
  \<^verbatim>\<open>rtc.Room()\<close> object allocated, and whether connect, publish, capture and the
  websocket send succeed.
\<close>

record env =
  new_room :: nat
  connect_ok :: bool
  publish_ok :: bool
  capture_ok :: bool
  send_ok :: bool

subsection \<open>DeviceSession operations\<close>

text \<open>\<^verbatim>\<open>send_message\<close> catches every exception of the send and logs it.\<close>

definition send_message :: "bool \<Rightarrow> out_msg \<Rightarrow> event list" where
  "send_message ok msg =
     (if ok then [WsSendText msg True] else [WsSendText msg False, Log LogSendError])"

definition start_session ::
  "env \<Rightarrow> pyval \<Rightarrow> string \<Rightarrow> token \<Rightarrow> DeviceSession \<Rightarrow> (exn + room) \<times> DeviceSession \<times> event list" where
  "start_session e sid livekit_url tok s =
     (let s1 = s\<lparr>session_id := sid, is_active := True, audio_frames_sent := 0\<rparr>;
          r = Room (new_room e);
          s2 = s1\<lparr>room := Some r\<rparr>
      in if \<not> connect_ok e
         then (Inl ConnectFailed, s2,
               [Log LogStarting, RoomConnect r livekit_url tok False, Log LogConnectFailed])
         else
           let s3 = s2\<lparr>audio_source := Some (AudioSource SAMPLE_RATE CHANNELS)\<rparr>
           in if \<not> publish_ok e
              then (Inl PublishFailed, s3,
                    [Log LogStarting, RoomConnect r livekit_url tok True, Log LogConnected,
                     RoomPublish r False])
              else (Inr r, s3,
                    [Log LogStarting, RoomConnect r livekit_url tok True, Log LogConnected,
                     RoomPublish r True, Log LogPublished, RoomOnTrackSubscribed r]
                    @ send_message (send_ok e) (SessionStarted sid)))"

text \<open>
  \<^verbatim>\<open>end_session\<close>. The call \<^verbatim>\<open>room.disconnect()\<close> is not guarded in the source; the
  room client's disconnect is safe to call in every state, so it has no failing outcome here.
\<close>

definition end_session :: "env \<Rightarrow> DeviceSession \<Rightarrow> DeviceSession \<times> event list" where
  "end_session e s =
     (if \<not> is_active s then (s, [])
      else
        let s1 = s\<lparr>is_active := False\<rparr>;
            tr_room = (case room s1 of Some r \<Rightarrow> [RoomDisconnect r] | None \<Rightarrow> []);
            s2 = (case room s1 of Some r \<Rightarrow> s1\<lparr>room := None\<rparr> | None \<Rightarrow> s1);
            s3 = s2\<lparr>audio_source := None\<rparr>;
            tr_msg = send_message (send_ok e)
                       (SessionEnded (session_id s3) (audio_frames_sent s3))
        in (s3\<lparr>session_id := PyNone\<rparr>, [Log LogEnding] @ tr_room @ tr_msg))"

definition process_audio_chunk ::
  "env \<Rightarrow> byte list \<Rightarrow> DeviceSession \<Rightarrow> DeviceSession \<times> event list" where
  "process_audio_chunk e audio_data s =
     (if \<not> is_active s \<or> audio_source s = None then (s, [])
      else
        case frombuffer audio_data of
          Inl err \<Rightarrow> (s, [Log LogAudioError])
        | Inr pcm \<Rightarrow>
            let frame = \<lparr>sample_rate = SAMPLE_RATE, num_channels = CHANNELS,
                         samples_per_channel = length pcm, data = pcm\<rparr>
            in if \<not> capture_ok e
               then (s, [CaptureFrame frame False, Log LogAudioError])
               else
                 let s' = s\<lparr>audio_frames_sent := audio_frames_sent s + 1\<rparr>
                 in (s', CaptureFrame frame True #
                         (if audio_frames_sent s' mod 33 = 0 then [Log LogStreaming] else [])))"

subsection \<open>Playback: \<^verbatim>\<open>_forward_agent_audio\<close>\<close>

definition agent_samples :: "AudioFrame \<Rightarrow> int16 list" where
  "agent_samples frame = (if num_channels frame = 2 then stride2 (data frame) else data frame)"

definition agent_payload :: "AudioFrame \<Rightarrow> byte list" where
  "agent_payload frame = tobytes (agent_samples frame)"

text \<open>
  The \<^verbatim>\<open>async for\<close> loop over a remote stream that ends: the frames it yields, each with
  the outcome of the websocket send, and whether the iteration ends by raising. The result
  says whether an exception reaches the outer handler.
\<close>

fun forward_frames :: "(AudioFrame \<times> send_result) list \<Rightarrow> bool \<Rightarrow> bool \<times> event list" where
  "forward_frames [] stream_raises = (stream_raises, [])"
| "forward_frames ((frame, res) # rest) stream_raises =
     (case res of
        SendOk \<Rightarrow>
          (case forward_frames rest stream_raises of
             (raised, tr) \<Rightarrow> (raised, WsSendBinary (agent_payload frame) SendOk # tr))
      | SendConnectionClosed \<Rightarrow>
          (False, [WsSendBinary (agent_payload frame) SendConnectionClosed, Log LogWsClosed])
      | SendError \<Rightarrow>
          (True, [WsSendBinary (agent_payload frame) SendError]))"

definition forward_agent_audio ::
  "bool \<Rightarrow> bool \<Rightarrow> (AudioFrame \<times> send_result) list \<Rightarrow> bool \<Rightarrow> bool \<Rightarrow> event list" where
  "forward_agent_audio start_send_ok stream_opens frames stream_raises end_send_ok =
     [Log LogPlaybackStart] @ send_message start_send_ok AgentSpeakingStart
     @ (if \<not> stream_opens then [Log LogForwardError]
        else case forward_frames frames stream_raises of
               (raised, tr) \<Rightarrow> tr @ (if raised then [Log LogForwardError] else []))
     @ send_message end_send_ok AgentSpeakingEnd @ [Log LogAgentFinished]"

subsection \<open>UMIBridge\<close>

text \<open>
  A websocket message is \<^verbatim>\<open>bytes\<close> or \<^verbatim>\<open>str\<close>. A text message is given by what
  \<^verbatim>\<open>json.loads\<close> makes of it: a decode error, a value that is not an object, or an
  object.
\<close>

datatype text_frame =
    InvalidJson
  | JsonNonObject
  | JsonObject "string \<rightharpoonup> pyval"

datatype message = Binary "byte list" | Text text_frame

definition dict_get :: "(string \<rightharpoonup> pyval) \<Rightarrow> string \<Rightarrow> pyval" where
  "dict_get msg k = (case msg k of None \<Rightarrow> PyNone | Some v \<Rightarrow> v)"

definition create_token :: "pyval \<Rightarrow> nat \<Rightarrow> token" where
  "create_token sid did = AccessToken did sid"

definition handle_message ::
  "env \<Rightarrow> DeviceSession \<Rightarrow> message \<Rightarrow> (exn + unit) \<times> DeviceSession \<times> event list" where
  "handle_message e session message =
     (case message of
        Binary audio \<Rightarrow>
          (case process_audio_chunk e audio session of (s', tr) \<Rightarrow> (Inr (), s', tr))
      | Text InvalidJson \<Rightarrow> (Inr (), session, [Log LogInvalidJson])
      | Text JsonNonObject \<Rightarrow> (Inl AttributeError, session, [])
      | Text (JsonObject msg) \<Rightarrow>
          (let msg_type = dict_get msg ''type'' in
           if msg_type = PyStr ''device_info''
           then (Inr (), session, Log LogDeviceInfo # send_message (send_ok e) Ready)
           else if msg_type = PyStr ''start_session''
           then
             (let sid = dict_get msg ''session_id'';
                  tok = create_token sid (device_id session)
              in case start_session e sid LIVEKIT_URL tok session of
                   (Inl x, s', tr) \<Rightarrow> (Inl x, s', tr)
                 | (Inr r, s', tr) \<Rightarrow> (Inr (), s', tr))
           else if msg_type = PyStr ''end_session''
           then (case end_session e session of (s', tr) \<Rightarrow> (Inr (), s', tr))
           else (Inr (), session, [])))"

text \<open>
  How the receive loop \<^verbatim>\<open>async for message in websocket\<close> stops when no handler
  raised: the peer closed normally, the iteration raised \<^verbatim>\<open>ConnectionClosed\<close>, or it
  raised another exception.
\<close>

datatype loop_end = ClosedOK | ClosedError | IOError

datatype loop_exit = ExitNormal | ExitConnectionClosed | ExitException

fun exit_of :: "loop_end \<Rightarrow> loop_exit" where
  "exit_of ClosedOK = ExitNormal"
| "exit_of ClosedError = ExitConnectionClosed"
| "exit_of IOError = ExitException"

fun receive_loop ::
  "DeviceSession \<Rightarrow> (message \<times> env) list \<Rightarrow> loop_end \<Rightarrow> loop_exit \<times> DeviceSession \<times> event list" where
  "receive_loop s [] le = (exit_of le, s, [])"
| "receive_loop s ((m, e) # ms) le =
     (case handle_message e s m of
        (Inl x, s', tr) \<Rightarrow> (ExitException, s', tr)
      | (Inr u, s', tr) \<Rightarrow>
          (case receive_loop s' ms le of (x, s'', tr') \<Rightarrow> (x, s'', tr @ tr')))"

fun exit_log :: "loop_exit \<Rightarrow> event list" where
  "exit_log ExitNormal = []"
| "exit_log ExitConnectionClosed = [Log LogDeviceDisconnected]"
| "exit_log ExitException = [Log LogError]"

text \<open>The \<^verbatim>\<open>finally\<close> block of \<^verbatim>\<open>handle_device\<close>.\<close>

definition cleanup ::
  "env \<Rightarrow> nat \<Rightarrow> (nat \<rightharpoonup> DeviceSession) \<Rightarrow> DeviceSession \<Rightarrow>
   (nat \<rightharpoonup> DeviceSession) \<times> DeviceSession \<times> event list" where
  "cleanup e did devices session =
     (let (s', tr) = (if is_active session then end_session e session else (session, []));
          devices' = (if devices did \<noteq> None then devices(did := None) else devices)
      in (devices', s', tr @ [Log LogCleanedUp]))"

text \<open>
  \<^verbatim>\<open>handle_device\<close> for a connection whose object identity is \<open>did\<close>: the messages the
  peer sends with the environment's answers while each is handled, how the loop stops if
  no handler raises, and the environment's answers during the cleanup. The registry entry
  refers to the session object; no code path reads it back.
\<close>

definition handle_device ::
  "(nat \<rightharpoonup> DeviceSession) \<Rightarrow> nat \<Rightarrow> (message \<times> env) list \<Rightarrow> loop_end \<Rightarrow> env \<Rightarrow>
   (nat \<rightharpoonup> DeviceSession) \<times> DeviceSession \<times> event list" where
  "handle_device devices did msgs le ce =
     (let session = DeviceSession_init did;
          devices1 = devices(did \<mapsto> session)
      in case receive_loop session msgs le of
           (x, s, tr) \<Rightarrow>
             (case cleanup ce did devices1 s of
                (devices2, s', ctr) \<Rightarrow>
                  (devices2, s', Log LogDeviceConnected # tr @ exit_log x @ ctr)))"

subsection \<open>Lifecycle states and observers of a trace\<close>

text \<open>
  The source keeps no lifecycle enumeration. A session is idle when \<^verbatim>\<open>is_active\<close> is
  false, and it accepts audio (the test at the head of \<^verbatim>\<open>process_audio_chunk\<close>) when
  it is active and has an audio source.
\<close>

definition is_idle :: "DeviceSession \<Rightarrow> bool" where
  "is_idle s = (\<not> is_active s)"

definition is_streaming :: "DeviceSession \<Rightarrow> bool" where
  "is_streaming s = (is_active s \<and> audio_source s \<noteq> None)"

text \<open>
  The running number of frames forwarded since the last session start: a start resets it, a
  successful capture adds one, nothing else changes it.
\<close>

definition count_step :: "int \<Rightarrow> event \<Rightarrow> int" where
  "count_step n ev =
     (case ev of
        Log l \<Rightarrow> (if l = LogStarting then 0 else n)
      | CaptureFrame f ok \<Rightarrow> (if ok then n + 1 else n)
      | _ \<Rightarrow> n)"

definition report_exact :: "int \<Rightarrow> event \<Rightarrow> bool" where
  "report_exact n ev =
     (case ev of
        WsSendText m ok \<Rightarrow> (case m of SessionEnded sid k \<Rightarrow> k = n | _ \<Rightarrow> True)
      | _ \<Rightarrow> True)"

text \<open>Every \<^verbatim>\<open>session_ended\<close> in the trace carries the running number at its place.\<close>

fun frames_sent_exact :: "int \<Rightarrow> event list \<Rightarrow> bool" where
  "frames_sent_exact n [] = True"
| "frames_sent_exact n (ev # tr) = (report_exact n ev \<and> frames_sent_exact (count_step n ev) tr)"

fun is_end_send :: "event \<Rightarrow> bool" where
  "is_end_send (WsSendText AgentSpeakingEnd ok) = True"
| "is_end_send ev = False"

fun is_ws_call :: "event \<Rightarrow> bool" where
  "is_ws_call (WsSendText m ok) = True"
| "is_ws_call (WsSendBinary b res) = True"
| "is_ws_call ev = False"

text \<open>
  The data-model invariant of a session: the session id is set exactly when the session is
  not idle, and so is the room handle.
\<close>

definition session_inv :: "DeviceSession \<Rightarrow> bool" where
  "session_inv s =
     ((session_id s \<noteq> PyNone) = (\<not> is_idle s) \<and> (room s \<noteq> None) = (\<not> is_idle s))"

text \<open>The room handle the session object refers to, if any.\<close>

definition room_handles :: "DeviceSession \<Rightarrow> room list" where
  "room_handles s = (case room s of None \<Rightarrow> [] | Some r \<Rightarrow> [r])"

text \<open>
  The room connections that are open after a trace: a successful connect opens one, a
  disconnect closes the one of that room object. A room object that the session no longer
  refers to stays open until it is disconnected.
\<close>

definition room_step :: "room list \<Rightarrow> event \<Rightarrow> room list" where
  "room_step opn ev =
     (case ev of
        RoomConnect r url tok ok \<Rightarrow> (if ok then r # opn else opn)
      | RoomDisconnect r \<Rightarrow> remove1 r opn
      | _ \<Rightarrow> opn)"

definition open_rooms :: "event list \<Rightarrow> room list" where
  "open_rooms tr = foldl room_step [] tr"

text \<open>
  The open connections are none, or the one of the room handle of an active session.
\<close>

definition room_inv :: "room list \<Rightarrow> DeviceSession \<Rightarrow> bool" where
  "room_inv opn s =
     (opn = [] \<or> (is_active s \<and> (case room s of Some r \<Rightarrow> opn = [r] | None \<Rightarrow> False)))"

text \<open>The part of the invariant that holds whatever the device sends.\<close>

definition idle_clear :: "DeviceSession \<Rightarrow> bool" where
  "idle_clear s =
     (if is_active s then room s \<noteq> None else session_id s = PyNone \<and> room s = None)"

text \<open>A message that, if it is a \<^verbatim>\<open>start_session\<close>, carries a session id.\<close>

fun start_carries_id :: "message \<times> env \<Rightarrow> bool" where
  "start_carries_id (Text (JsonObject msg), e) =
     (dict_get msg ''type'' \<noteq> PyStr ''start_session'' \<or> dict_get msg ''session_id'' \<noteq> PyNone)"
| "start_carries_id (m, e) = True"

text \<open>
  A run of the receive loop in which every \<^verbatim>\<open>start_session\<close> message arrives while the
  session is idle.
\<close>

fun is_start_session :: "message \<Rightarrow> bool" where
  "is_start_session (Text (JsonObject msg)) = (dict_get msg ''type'' = PyStr ''start_session'')"
| "is_start_session m = False"

fun starts_when_idle :: "DeviceSession \<Rightarrow> (message \<times> env) list \<Rightarrow> bool" where
  "starts_when_idle s [] = True"
| "starts_when_idle s ((m, e) # ms) =
     ((\<not> is_start_session m \<or> is_idle s) \<and>
      (case handle_message e s m of
         (Inl x, s', tr) \<Rightarrow> True
       | (Inr u, s', tr) \<Rightarrow> starts_when_idle s' ms))"

subsection \<open>Concrete inputs\<close>

definition ex_env :: env where
  "ex_env = \<lparr>new_room = 1, connect_ok = True, publish_ok = True, capture_ok = True,
             send_ok = True\<rparr>"

definition ex_env_capture_fails :: env where
  "ex_env_capture_fails = \<lparr>new_room = 1, connect_ok = True, publish_ok = True,
                           capture_ok = False, send_ok = True\<rparr>"

definition ex_env2 :: env where
  "ex_env2 = \<lparr>new_room = 2, connect_ok = True, publish_ok = True, capture_ok = True,
              send_ok = True\<rparr>"

definition ex_env_connect_fails :: env where
  "ex_env_connect_fails = \<lparr>new_room = 1, connect_ok = False, publish_ok = True,
                           capture_ok = True, send_ok = True\<rparr>"

definition ex_fields_abc :: "string \<rightharpoonup> pyval" where
  "ex_fields_abc = [''type'' \<mapsto> PyStr ''start_session'', ''session_id'' \<mapsto> PyStr ''abc'']"

definition ex_fields_xyz :: "string \<rightharpoonup> pyval" where
  "ex_fields_xyz = [''type'' \<mapsto> PyStr ''start_session'', ''session_id'' \<mapsto> PyStr ''xyz'']"

definition ex_start_abc :: message where
  "ex_start_abc = Text (JsonObject ex_fields_abc)"

definition ex_start_xyz :: message where
  "ex_start_xyz = Text (JsonObject ex_fields_xyz)"

definition ex_start_no_id :: message where
  "ex_start_no_id = Text (JsonObject [''type'' \<mapsto> PyStr ''start_session''])"

definition ex_device_info :: message where
  "ex_device_info = Text (JsonObject [''type'' \<mapsto> PyStr ''device_info''])"

definition ex_end :: message where
  "ex_end = Text (JsonObject [''type'' \<mapsto> PyStr ''end_session''])"

definition ex_devices :: "nat \<rightharpoonup> DeviceSession" where
  "ex_devices = Map.empty"

definition ex_active :: DeviceSession where
  "ex_active =
     \<lparr>device_id = 7, session_id = PyStr ''abc'', room = Some (Room 1),
      audio_source = Some (AudioSource 16000 1), is_active = True, audio_frames_sent = 0\<rparr>"

definition ex_stereo :: AudioFrame where
  "ex_stereo = \<lparr>sample_rate = 16000, num_channels = 2, samples_per_channel = 2,
                data = [0x0102, 0x0304, 0x0506, 0x0708]\<rparr>"

definition ex_mono :: AudioFrame where
  "ex_mono = \<lparr>sample_rate = 16000, num_channels = 1, samples_per_channel = 2,
              data = [0x0102, 0x0304]\<rparr>"

definition ex_run :: "(message \<times> env) list" where
  "ex_run =
     [(ex_start_abc, ex_env),
      (Binary [1, 2, 3, 4], ex_env),
      (Binary [1, 2, 3], ex_env),
      (Binary [5, 6], ex_env_capture_fails),
      (ex_end, ex_env)]"

definition ex_streaming_run :: "(message \<times> env) list" where
  "ex_streaming_run = [(ex_start_abc, ex_env), (Binary [1, 2, 3, 4], ex_env)]"

definition ex_double_start :: "(message \<times> env) list" where
  "ex_double_start = [(ex_start_abc, ex_env), (ex_start_xyz, ex_env2)]"

section \<open>Properties\<close>

subsection \<open>Sample buffers\<close>










subsection \<open>Session operations\<close>

lemma end_session_idle: "\<not> is_active s \<Longrightarrow> end_session e s = (s, [])"
  by (simp add: end_session_def)

lemma end_session_inactive: "\<not> is_active (fst (end_session e s))"
  by (simp add: end_session_def Let_def split: option.splits)

text \<open>
  C6. \<^verbatim>\<open>end_session\<close> on an idle session sends nothing and changes nothing, so a second
  \<^verbatim>\<open>end_session\<close> right after a first one is a no-op, whatever the state before the first.
\<close>

theorem end_session_idempotent:
  "(is_idle s \<longrightarrow> end_session e s = (s, []))
   \<and> end_session e2 (fst (end_session e1 s)) = (fst (end_session e1 s), [])"
  by (simp add: is_idle_def end_session_idle end_session_inactive)

theorem end_session_idempotent_witness:
  "is_idle (DeviceSession_init 7)
   \<and> end_session ex_env (DeviceSession_init 7) = (DeviceSession_init 7, [])
   \<and> is_active ex_active
   \<and> filter is_ws_call (snd (end_session ex_env ex_active))
       = [WsSendText (SessionEnded (PyStr ''abc'') 0) True]
   \<and> end_session ex_env (fst (end_session ex_env ex_active))
       = (fst (end_session ex_env ex_active), [])"
proof -
  have i: "is_idle (DeviceSession_init 7)"
    by (simp add: is_idle_def DeviceSession_init_def)
  have a: "is_active ex_active"
    by (simp add: ex_active_def)
  have w: "filter is_ws_call (snd (end_session ex_env ex_active))
             = [WsSendText (SessionEnded (PyStr ''abc'') 0) True]"
    by (simp add: end_session_def ex_active_def ex_env_def send_message_def)
  from end_session_idempotent [of "DeviceSession_init 7" ex_env ex_env ex_env]
    end_session_idempotent [of ex_active ex_env ex_env ex_env] i a w
  show ?thesis by simp
qed

text \<open>
  C7. A binary frame that arrives while the session is not accepting audio is dropped
  silently: the handler returns normally, no call is made (no capture, no log line), and
  the session, with its frame counter, is unchanged.
\<close>

theorem inactive_frame_dropped:
  "\<not> is_streaming s \<Longrightarrow> handle_message e s (Binary audio) = (Inr (), s, [])"
  by (auto simp add: is_streaming_def handle_message_def process_audio_chunk_def)

theorem inactive_frame_dropped_witness:
  "\<not> is_streaming (DeviceSession_init 7)
   \<and> handle_message ex_env (DeviceSession_init 7) (Binary [1, 2, 3, 4])
       = (Inr (), DeviceSession_init 7, [])"
proof -
  have h: "\<not> is_streaming (DeviceSession_init 7)"
    by (simp add: is_streaming_def DeviceSession_init_def)
  from inactive_frame_dropped [OF h, of ex_env "[1, 2, 3, 4]"] h show ?thesis by simp
qed

text \<open>
  C10. A binary frame of odd length that arrives while the session accepts audio fails to
  decode inside the guarded block: one error line is logged, nothing is captured, the
  session is unchanged, the handler returns normally and the receive loop goes on with the
  next message.
\<close>

theorem odd_chunk_dropped:
  assumes "is_streaming s" and "odd (length audio)"
  shows "process_audio_chunk e audio s = (s, [Log LogAudioError])
    \<and> handle_message e s (Binary audio) = (Inr (), s, [Log LogAudioError])
    \<and> receive_loop s ((Binary audio, e) # rest) le =
        (case receive_loop s rest le of (x, s', tr) \<Rightarrow> (x, s', Log LogAudioError # tr))"
  using assms
  by (auto simp add: is_streaming_def handle_message_def process_audio_chunk_def frombuffer_def)

theorem odd_chunk_dropped_witness:
  "is_streaming ex_active \<and> odd (length [1, 2, 3 :: byte])
   \<and> handle_message ex_env ex_active (Binary [1, 2, 3]) = (Inr (), ex_active, [Log LogAudioError])
   \<and> receive_loop ex_active [(Binary [1, 2, 3], ex_env)] ClosedOK
       = (ExitNormal, ex_active, [Log LogAudioError])"
proof -
  have a: "is_streaming ex_active"
    by (simp add: is_streaming_def ex_active_def)
  have b: "odd (length [1, 2, 3 :: byte])"
    by simp
  from odd_chunk_dropped [OF a b, of ex_env "[]" ClosedOK] a b show ?thesis by simp
qed

subsection \<open>Playback\<close>

lemma forward_frames_no_end: "filter is_end_send (snd (forward_frames frames sr)) = []"
  by (induction frames sr rule: forward_frames.induct)
     (auto split: send_result.splits prod.splits)

lemma send_message_end:
  "filter is_end_send (send_message ok m) = (if m = AgentSpeakingEnd then [WsSendText m ok] else [])"
  by (cases m) (auto simp add: send_message_def)

lemma send_message_ws: "filter is_ws_call (send_message ok m) = [WsSendText m ok]"
  by (auto simp add: send_message_def)

text \<open>
  C9. However the remote stream of a playback task ends (the stream cannot be opened, the
  iteration ends or raises, a send finds the socket closed or fails otherwise),
  \<^verbatim>\<open>agent_speaking_end\<close> is sent exactly once, and it is the last thing the task writes
  to the websocket.
\<close>

theorem agent_speaking_end_always_sent:
  "length (filter is_end_send
            (forward_agent_audio start_ok opens frames stream_raises end_ok)) = 1
   \<and> last (filter is_ws_call
            (forward_agent_audio start_ok opens frames stream_raises end_ok))
       = WsSendText AgentSpeakingEnd end_ok"
  using forward_frames_no_end [of frames stream_raises]
  by (auto simp add: forward_agent_audio_def send_message_end send_message_ws
      split: prod.splits)

theorem agent_speaking_end_always_sent_witness:
  "filter is_ws_call
     (forward_agent_audio True True [(ex_stereo, SendOk), (ex_mono, SendConnectionClosed)] False True)
   = [WsSendText AgentSpeakingStart True,
      WsSendBinary [0x02, 0x01, 0x06, 0x05] SendOk,
      WsSendBinary [0x02, 0x01, 0x04, 0x03] SendConnectionClosed,
      WsSendText AgentSpeakingEnd True]
   \<and> last (filter is_ws_call
       (forward_agent_audio True True [(ex_stereo, SendOk), (ex_mono, SendConnectionClosed)] False True))
     = WsSendText AgentSpeakingEnd True"
proof -
  have t: "filter is_ws_call
     (forward_agent_audio True True [(ex_stereo, SendOk), (ex_mono, SendConnectionClosed)] False True)
   = [WsSendText AgentSpeakingStart True,
      WsSendBinary [0x02, 0x01, 0x06, 0x05] SendOk,
      WsSendBinary [0x02, 0x01, 0x04, 0x03] SendConnectionClosed,
      WsSendText AgentSpeakingEnd True]"
    by (simp add: forward_agent_audio_def send_message_def agent_payload_def agent_samples_def
        ex_stereo_def ex_mono_def)
  from agent_speaking_end_always_sent
         [of True True "[(ex_stereo, SendOk), (ex_mono, SendConnectionClosed)]" False True] t
  show ?thesis by simp
qed

subsection \<open>The frame counter\<close>

lemma exact_append:
  "frames_sent_exact n (a @ b) =
     (frames_sent_exact n a \<and> frames_sent_exact (foldl count_step n a) b)"
  by (induction a arbitrary: n) auto

lemma send_message_exact:
  "frames_sent_exact n (send_message ok m) = report_exact n (WsSendText m ok)"
  by (simp add: send_message_def report_exact_def count_step_def)

lemma send_message_count: "foldl count_step n (send_message ok m) = n"
  by (simp add: send_message_def count_step_def)

lemma start_session_counts:
  "start_session e sid url tok s = (r, s', tr) \<Longrightarrow>
   frames_sent_exact n tr \<and> foldl count_step n tr = audio_frames_sent s'"
  by (auto simp add: start_session_def Let_def send_message_def report_exact_def count_step_def
      split: if_splits)

lemma end_session_counts:
  "end_session e s = (s', tr) \<Longrightarrow>
   frames_sent_exact (audio_frames_sent s) tr \<and>
   foldl count_step (audio_frames_sent s) tr = audio_frames_sent s'"
  by (auto simp add: end_session_def Let_def send_message_def report_exact_def count_step_def
      split: if_splits option.splits)

lemma process_audio_chunk_counts:
  "process_audio_chunk e audio s = (s', tr) \<Longrightarrow>
   frames_sent_exact (audio_frames_sent s) tr \<and>
   foldl count_step (audio_frames_sent s) tr = audio_frames_sent s'"
  by (auto simp add: process_audio_chunk_def Let_def report_exact_def count_step_def
      split: if_splits sum.splits)

lemma handle_message_counts:
  "handle_message e s m = (r, s', tr) \<Longrightarrow>
   frames_sent_exact (audio_frames_sent s) tr \<and>
   foldl count_step (audio_frames_sent s) tr = audio_frames_sent s'"
  unfolding handle_message_def
  by (auto simp add: Let_def send_message_exact send_message_count report_exact_def count_step_def
      split: message.splits text_frame.splits if_splits prod.splits sum.splits
      dest: start_session_counts end_session_counts process_audio_chunk_counts)

lemma receive_loop_counts:
  "receive_loop s ms le = (x, s', tr) \<Longrightarrow>
   frames_sent_exact (audio_frames_sent s) tr \<and>
   foldl count_step (audio_frames_sent s) tr = audio_frames_sent s'"
proof (induction ms arbitrary: s x s' tr)
  case Nil
  then show ?case by simp
next
  case (Cons a ms)
  obtain m e where a: "a = (m, e)" by (cases a)
  obtain r s1 tr1 where h: "handle_message e s m = (r, s1, tr1)"
    by (cases "handle_message e s m")
  note hc = handle_message_counts [OF h]
  show ?case
  proof (cases r)
    case (Inl err)
    with Cons.prems a h hc show ?thesis by simp
  next
    case (Inr u)
    obtain x2 s2 tr2 where l: "receive_loop s1 ms le = (x2, s2, tr2)"
      by (cases "receive_loop s1 ms le")
    from Cons.IH [OF l] Cons.prems a h hc Inr l show ?thesis
      by (auto simp add: exact_append)
  qed
qed

lemma exit_log_counts:
  "frames_sent_exact n (exit_log x) \<and> foldl count_step n (exit_log x) = n"
  by (cases x) (simp_all add: report_exact_def count_step_def)

lemma cleanup_counts:
  "cleanup e did devs s = (devs', s', tr) \<Longrightarrow> frames_sent_exact (audio_frames_sent s) tr"
  by (auto simp add: cleanup_def exact_append report_exact_def count_step_def
      split: if_splits prod.splits dest: end_session_counts)

text \<open>
  C3. Over the whole life of a connection, every \<^verbatim>\<open>session_ended\<close> message carries as
  \<^verbatim>\<open>frames_sent\<close> exactly the number of frames captured successfully since the last
  session start: a frame that fails to decode or to be captured is not counted, and a
  start resets the count to zero.
\<close>

theorem frames_sent_counts_forwarded:
  "frames_sent_exact 0 (snd (snd (handle_device devices did msgs le ce)))"
proof -
  obtain x s tr where l: "receive_loop (DeviceSession_init did) msgs le = (x, s, tr)"
    by (cases "receive_loop (DeviceSession_init did) msgs le")
  obtain d2 s2 ctr
    where c: "cleanup ce did (devices(did \<mapsto> DeviceSession_init did)) s = (d2, s2, ctr)"
    by (cases "cleanup ce did (devices(did \<mapsto> DeviceSession_init did)) s")
  from receive_loop_counts [OF l]
  have 1: "frames_sent_exact 0 tr" "foldl count_step 0 tr = audio_frames_sent s"
    by (simp_all add: DeviceSession_init_def)
  from cleanup_counts [OF c] have 2: "frames_sent_exact (audio_frames_sent s) ctr" .
  show ?thesis
    using l c 1 2 exit_log_counts [of "audio_frames_sent s" x]
    by (simp add: handle_device_def Let_def exact_append report_exact_def count_step_def)
qed

theorem frames_sent_counts_forwarded_witness:
  "frames_sent_exact 0 (snd (snd (handle_device ex_devices 7 ex_run ClosedOK ex_env)))
   \<and> filter is_ws_call (snd (snd (handle_device ex_devices 7 ex_run ClosedOK ex_env)))
       = [WsSendText (SessionStarted (PyStr ''abc'')) True,
          WsSendText (SessionEnded (PyStr ''abc'') 1) True]"
proof -
  have t: "filter is_ws_call (snd (snd (handle_device ex_devices 7 ex_run ClosedOK ex_env)))
       = [WsSendText (SessionStarted (PyStr ''abc'')) True,
          WsSendText (SessionEnded (PyStr ''abc'') 1) True]"
    by (simp add: handle_device_def cleanup_def handle_message_def start_session_def
        end_session_def process_audio_chunk_def frombuffer_def send_message_def dict_get_def
        create_token_def Let_def DeviceSession_init_def ex_run_def ex_env_def
        ex_env_capture_fails_def ex_start_abc_def ex_fields_abc_def ex_end_def ex_devices_def)
  from frames_sent_counts_forwarded [of ex_devices 7 ex_run ClosedOK ex_env] t
  show ?thesis by simp
qed

subsection \<open>Starting a session\<close>

lemma ex_active_reached:
  "fst (snd (handle_message ex_env (DeviceSession_init 7) ex_start_abc)) = ex_active"
  by (simp add: handle_message_def ex_env_def DeviceSession_init_def ex_start_abc_def
      ex_fields_abc_def dict_get_def start_session_def send_message_def ex_active_def
      create_token_def SAMPLE_RATE_def CHANNELS_def Let_def)

text \<open>
  C1, as stated, fails: \<^verbatim>\<open>_handle_message\<close> has no test of the session state before
  \<^verbatim>\<open>start_session\<close>. On the active session \<open>abc\<close>, a \<^verbatim>\<open>start_session\<close> for
  \<open>xyz\<close> changes the session: it now has the new id and a new room handle.
\<close>

theorem start_while_active_changes_session:
  "\<not> is_idle ex_active
   \<and> fst (snd (handle_message ex_env2 ex_active ex_start_xyz)) \<noteq> ex_active
   \<and> session_id (fst (snd (handle_message ex_env2 ex_active ex_start_xyz))) = PyStr ''xyz''
   \<and> room (fst (snd (handle_message ex_env2 ex_active ex_start_xyz))) = Some (Room 2)
   \<and> fst (handle_message ex_env2 ex_active ex_start_xyz) = Inr ()"
  by (simp add: handle_message_def ex_env2_def ex_start_xyz_def ex_fields_xyz_def dict_get_def
      is_idle_def start_session_def send_message_def ex_active_def create_token_def
      SAMPLE_RATE_def CHANNELS_def Let_def)

text \<open>
  C1, amended. A \<^verbatim>\<open>start_session\<close> message is handled the same way in every session
  state, idle or not: when connect and publish succeed, the session takes the id of the
  message, is active with its frame counter at zero, holds the newly created room handle and
  a new audio source, and \<^verbatim>\<open>session_started\<close> with that id is sent to the device.
\<close>

theorem start_session_not_guarded:
  assumes "dict_get msg ''type'' = PyStr ''start_session''"
    and "connect_ok e" and "publish_ok e"
  shows "handle_message e s (Text (JsonObject msg)) =
     (Inr (),
      s\<lparr>session_id := dict_get msg ''session_id'', is_active := True, audio_frames_sent := 0,
        room := Some (Room (new_room e)),
        audio_source := Some (AudioSource SAMPLE_RATE CHANNELS)\<rparr>,
      [Log LogStarting,
       RoomConnect (Room (new_room e)) LIVEKIT_URL
         (create_token (dict_get msg ''session_id'') (device_id s)) True,
       Log LogConnected, RoomPublish (Room (new_room e)) True, Log LogPublished,
       RoomOnTrackSubscribed (Room (new_room e))]
      @ send_message (send_ok e) (SessionStarted (dict_get msg ''session_id'')))"
  using assms by (simp add: handle_message_def start_session_def Let_def)

theorem start_session_not_guarded_witness:
  "dict_get ex_fields_xyz ''type'' = PyStr ''start_session''
   \<and> connect_ok ex_env2 \<and> publish_ok ex_env2 \<and> \<not> is_idle ex_active
   \<and> fst (snd (handle_message ex_env2 ex_active (Text (JsonObject ex_fields_xyz))))
       = \<lparr>device_id = 7, session_id = PyStr ''xyz'', room = Some (Room 2),
          audio_source = Some (AudioSource 16000 1), is_active = True, audio_frames_sent = 0\<rparr>
   \<and> filter is_ws_call (snd (snd (handle_message ex_env2 ex_active (Text (JsonObject ex_fields_xyz)))))
       = [WsSendText (SessionStarted (PyStr ''xyz'')) True]"
proof -
  have t: "dict_get ex_fields_xyz ''type'' = PyStr ''start_session''"
    by (simp add: dict_get_def ex_fields_xyz_def)
  have c: "connect_ok ex_env2" and p: "publish_ok ex_env2"
    by (simp_all add: ex_env2_def)
  have i: "\<not> is_idle ex_active"
    by (simp add: is_idle_def ex_active_def)
  have sid: "dict_get ex_fields_xyz ''session_id'' = PyStr ''xyz''"
    by (simp add: dict_get_def ex_fields_xyz_def)
  from start_session_not_guarded [OF t c p, of ex_active] t c p i
  show ?thesis
    by (simp add: sid send_message_def ex_active_def ex_env2_def SAMPLE_RATE_def CHANNELS_def)
qed

subsection \<open>The session invariant\<close>

lemma start_session_idle_clear:
  "start_session e sid url tok s = (r, s', tr) \<Longrightarrow>
   idle_clear s' \<and> is_active s' \<and> session_id s' = sid \<and> device_id s' = device_id s"
  by (auto simp add: start_session_def Let_def idle_clear_def split: if_splits)

lemma end_session_idle_clear:
  "idle_clear s \<Longrightarrow> end_session e s = (s', tr) \<Longrightarrow>
   idle_clear s' \<and> \<not> is_active s' \<and> device_id s' = device_id s"
  by (auto simp add: end_session_def Let_def idle_clear_def split: if_splits option.splits)

lemma process_audio_chunk_same:
  "process_audio_chunk e audio s = (s', tr) \<Longrightarrow>
   is_active s' = is_active s \<and> room s' = room s \<and> session_id s' = session_id s
   \<and> device_id s' = device_id s"
  by (auto simp add: process_audio_chunk_def Let_def split: if_splits sum.splits)

lemma handle_message_idle_clear:
  assumes "idle_clear s" and "handle_message e s m = (r, s', tr)"
  shows "idle_clear s' \<and> device_id s' = device_id s"
proof (cases m)
  case (Binary audio)
  with assms process_audio_chunk_same [of e audio s] show ?thesis
    by (auto simp add: handle_message_def idle_clear_def split: prod.splits)
next
  case (Text t)
  show ?thesis
  proof (cases t)
    case (JsonObject msg)
    with Text assms show ?thesis
      by (auto simp add: handle_message_def Let_def split: if_splits prod.splits sum.splits
          dest: start_session_idle_clear end_session_idle_clear)
  qed (use Text assms in \<open>auto simp add: handle_message_def\<close>)
qed

lemma handle_message_has_id:
  assumes "is_active s \<longrightarrow> session_id s \<noteq> PyNone" and "start_carries_id (m, e)"
    and "handle_message e s m = (r, s', tr)" and "idle_clear s"
  shows "is_active s' \<longrightarrow> session_id s' \<noteq> PyNone"
proof (cases m)
  case (Binary audio)
  with assms process_audio_chunk_same [of e audio s] show ?thesis
    by (auto simp add: handle_message_def split: prod.splits)
next
  case (Text t)
  show ?thesis
  proof (cases t)
    case (JsonObject msg)
    with Text assms show ?thesis
      by (auto simp add: handle_message_def Let_def split: if_splits prod.splits sum.splits
          dest: start_session_idle_clear end_session_idle_clear)
  qed (use Text assms in \<open>auto simp add: handle_message_def\<close>)
qed

lemma receive_loop_idle_clear:
  "idle_clear s \<Longrightarrow> receive_loop s ms le = (x, s', tr) \<Longrightarrow>
   idle_clear s' \<and> device_id s' = device_id s"
proof (induction ms arbitrary: s x s' tr)
  case Nil
  then show ?case by simp
next
  case (Cons a ms)
  obtain m e where a: "a = (m, e)" by (cases a)
  obtain r s1 tr1 where h: "handle_message e s m = (r, s1, tr1)"
    by (cases "handle_message e s m")
  note hc = handle_message_idle_clear [OF Cons.prems(1) h]
  show ?case
  proof (cases r)
    case (Inl err)
    with Cons.prems a h hc show ?thesis by simp
  next
    case (Inr u)
    obtain x2 s2 tr2 where l: "receive_loop s1 ms le = (x2, s2, tr2)"
      by (cases "receive_loop s1 ms le")
    from Cons.IH [OF _ l] Cons.prems a h hc Inr l show ?thesis
      by auto
  qed
qed

lemma receive_loop_has_id:
  "idle_clear s \<Longrightarrow> is_active s \<longrightarrow> session_id s \<noteq> PyNone \<Longrightarrow>
   list_all start_carries_id ms \<Longrightarrow> receive_loop s ms le = (x, s', tr) \<Longrightarrow>
   is_active s' \<longrightarrow> session_id s' \<noteq> PyNone"
proof (induction ms arbitrary: s x s' tr)
  case Nil
  then show ?case by simp
next
  case (Cons a ms)
  obtain m e where a: "a = (m, e)" by (cases a)
  obtain r s1 tr1 where h: "handle_message e s m = (r, s1, tr1)"
    by (cases "handle_message e s m")
  from Cons.prems a have c: "start_carries_id (m, e)" "list_all start_carries_id ms"
    by simp_all
  note hc = handle_message_idle_clear [OF Cons.prems(1) h]
  note hi = handle_message_has_id [OF Cons.prems(2) c(1) h Cons.prems(1)]
  show ?case
  proof (cases r)
    case (Inl err)
    with Cons.prems a h hi show ?thesis by simp
  next
    case (Inr u)
    obtain x2 s2 tr2 where l: "receive_loop s1 ms le = (x2, s2, tr2)"
      by (cases "receive_loop s1 ms le")
    from Cons.IH [OF _ hi c(2) l] Cons.prems a h hc Inr l show ?thesis
      by auto
  qed
qed

lemma init_idle_clear: "idle_clear (DeviceSession_init did)"
  by (simp add: idle_clear_def DeviceSession_init_def)

lemma send_message_rooms: "foldl room_step opn (send_message ok m) = opn"
  by (simp add: send_message_def room_step_def)

lemma start_session_rooms:
  "start_session e sid url tok s = (r, s', tr) \<Longrightarrow> room_inv (foldl room_step [] tr) s'"
  unfolding start_session_def Let_def
  by (cases "connect_ok e"; cases "publish_ok e"; cases "send_ok e")
     (auto simp add: room_inv_def room_step_def send_message_def)

lemma end_session_rooms:
  assumes "room_inv opn s" and "end_session e s = (s', tr)"
  shows "room_inv (foldl room_step opn tr) s'"
proof (cases "is_active s")
  case False
  with assms show ?thesis
    by (auto simp add: end_session_def room_inv_def)
next
  case True
  show ?thesis
  proof (cases "room s")
    case None
    with True assms have "opn = []"
      by (simp add: room_inv_def)
    with True None assms(2) have "foldl room_step opn tr = []"
      by (auto simp add: end_session_def Let_def room_step_def send_message_rooms)
    then show ?thesis by (simp add: room_inv_def)
  next
    case (Some r0)
    with True assms have "opn = [] \<or> opn = [r0]"
      by (auto simp add: room_inv_def)
    with True Some assms(2) have "foldl room_step opn tr = []"
      by (auto simp add: end_session_def Let_def room_step_def send_message_rooms)
    then show ?thesis by (simp add: room_inv_def)
  qed
qed

lemma process_audio_chunk_rooms:
  "process_audio_chunk e audio s = (s', tr) \<Longrightarrow> foldl room_step opn tr = opn"
  by (auto simp add: process_audio_chunk_def Let_def room_step_def split: if_splits sum.splits)

lemma handle_message_rooms:
  assumes inv: "room_inv opn s" and st: "\<not> is_start_session m \<or> is_idle s"
    and h: "handle_message e s m = (r, s', tr)"
  shows "room_inv (foldl room_step opn tr) s'"
proof (cases m)
  case (Binary audio)
  obtain s1 tr1 where p: "process_audio_chunk e audio s = (s1, tr1)"
    by (cases "process_audio_chunk e audio s")
  with h Binary have eq: "s' = s1" "tr = tr1"
    by (simp_all add: handle_message_def)
  from process_audio_chunk_rooms [OF p, of opn] process_audio_chunk_same [OF p] inv eq
  show ?thesis
    by (simp add: room_inv_def)
next
  case (Text t)
  show ?thesis
  proof (cases t)
    case InvalidJson
    with Text h inv show ?thesis
      by (auto simp add: handle_message_def room_step_def)
  next
    case JsonNonObject
    with Text h inv show ?thesis
      by (auto simp add: handle_message_def)
  next
    case (JsonObject msg)
    consider (info) "dict_get msg ''type'' = PyStr ''device_info''"
      | (start) "dict_get msg ''type'' = PyStr ''start_session''"
      | (ending) "dict_get msg ''type'' = PyStr ''end_session''"
      | (other) "dict_get msg ''type'' \<noteq> PyStr ''device_info''"
          "dict_get msg ''type'' \<noteq> PyStr ''start_session''"
          "dict_get msg ''type'' \<noteq> PyStr ''end_session''"
      by blast
    then show ?thesis
    proof cases
      case info
      with Text JsonObject h inv show ?thesis
        by (auto simp add: handle_message_def send_message_rooms room_step_def)
    next
      case start
      with st Text JsonObject inv have o: "opn = []"
        by (auto simp add: room_inv_def is_idle_def)
      obtain r1 s1 tr1 where ss: "start_session e (dict_get msg ''session_id'') LIVEKIT_URL
          (create_token (dict_get msg ''session_id'') (device_id s)) s = (r1, s1, tr1)"
        by (cases "start_session e (dict_get msg ''session_id'') LIVEKIT_URL
          (create_token (dict_get msg ''session_id'') (device_id s)) s")
      with start Text JsonObject h have eq: "s' = s1" "tr = tr1"
        by (auto simp add: handle_message_def Let_def split: sum.splits)
      from start_session_rooms [OF ss] o eq show ?thesis by simp
    next
      case ending
      obtain s1 tr1 where es: "end_session e s = (s1, tr1)"
        by (cases "end_session e s")
      with ending Text JsonObject h have eq: "s' = s1" "tr = tr1"
        by (auto simp add: handle_message_def)
      from end_session_rooms [OF inv es] eq show ?thesis by simp
    next
      case other
      with Text JsonObject h inv show ?thesis
        by (auto simp add: handle_message_def)
    qed
  qed
qed

lemma receive_loop_rooms:
  "room_inv opn s \<Longrightarrow> starts_when_idle s ms \<Longrightarrow> receive_loop s ms le = (x, s', tr) \<Longrightarrow>
   room_inv (foldl room_step opn tr) s'"
proof (induction ms arbitrary: s opn x s' tr)
  case Nil
  then show ?case by simp
next
  case (Cons a ms)
  obtain m e where a: "a = (m, e)" by (cases a)
  obtain r s1 tr1 where h: "handle_message e s m = (r, s1, tr1)"
    by (cases "handle_message e s m")
  from Cons.prems a have st: "\<not> is_start_session m \<or> is_idle s"
    by simp
  note hr = handle_message_rooms [OF Cons.prems(1) st h]
  show ?case
  proof (cases r)
    case (Inl err)
    with Cons.prems a h hr show ?thesis by auto
  next
    case (Inr u)
    obtain x2 s2 tr2 where l: "receive_loop s1 ms le = (x2, s2, tr2)"
      by (cases "receive_loop s1 ms le")
    from Cons.prems a h Inr have sw: "starts_when_idle s1 ms"
      by simp
    from Cons.IH [OF hr sw l] Cons.prems a h Inr l show ?thesis
      by auto
  qed
qed

text \<open>
  C5, as stated, fails in two ways. A \<^verbatim>\<open>start_session\<close> message without a
  \<^verbatim>\<open>session_id\<close> key makes \<^verbatim>\<open>msg.get('session_id')\<close> return \<^verbatim>\<open>None\<close>, which
  \<^verbatim>\<open>start_session\<close> stores: the session is then active with a null session id. And a
  \<^verbatim>\<open>start_session\<close> received while a session is active replaces \<^verbatim>\<open>self.room\<close>
  without disconnecting the old room: the connections of both rooms are then open at once
  for one device.
\<close>

theorem invariant_broken_by_start_messages:
  "\<not> session_inv
       (fst (snd (receive_loop (DeviceSession_init 7) [(ex_start_no_id, ex_env)] ClosedOK)))
   \<and> \<not> is_idle
       (fst (snd (receive_loop (DeviceSession_init 7) [(ex_start_no_id, ex_env)] ClosedOK)))
   \<and> session_id
       (fst (snd (receive_loop (DeviceSession_init 7) [(ex_start_no_id, ex_env)] ClosedOK)))
     = PyNone
   \<and> open_rooms (snd (snd (receive_loop (DeviceSession_init 7) ex_double_start ClosedOK)))
     = [Room 2, Room 1]
   \<and> room_handles (fst (snd (receive_loop (DeviceSession_init 7) ex_double_start ClosedOK)))
     = [Room 2]"
  by (simp add: session_inv_def is_idle_def open_rooms_def room_step_def room_handles_def
      handle_message_def start_session_def send_message_def dict_get_def create_token_def
      Let_def DeviceSession_init_def SAMPLE_RATE_def CHANNELS_def ex_env_def ex_env2_def
      ex_start_no_id_def ex_double_start_def ex_start_abc_def ex_fields_abc_def
      ex_start_xyz_def ex_fields_xyz_def)

text \<open>
  C5, amended. In every state the receive loop reaches from a new session (after any
  number of complete operations), the room handle exists exactly when the session is not
  idle, and the session id is null when the session is idle. If every
  \<^verbatim>\<open>start_session\<close> message carried a session id, the session id is also non-null
  whenever the session is not idle. If every \<^verbatim>\<open>start_session\<close> message arrived while
  the session was idle, at most one room connection is open, and it is the one of the room
  handle the session holds.
\<close>

theorem session_invariant_reachable:
  "(room (fst (snd (receive_loop (DeviceSession_init did) msgs le))) \<noteq> None)
     = (\<not> is_idle (fst (snd (receive_loop (DeviceSession_init did) msgs le))))
   \<and> (is_idle (fst (snd (receive_loop (DeviceSession_init did) msgs le))) \<longrightarrow>
        session_id (fst (snd (receive_loop (DeviceSession_init did) msgs le))) = PyNone)
   \<and> (list_all start_carries_id msgs \<longrightarrow>
        session_inv (fst (snd (receive_loop (DeviceSession_init did) msgs le))))
   \<and> (starts_when_idle (DeviceSession_init did) msgs \<longrightarrow>
        length (open_rooms (snd (snd (receive_loop (DeviceSession_init did) msgs le)))) \<le> 1
        \<and> set (open_rooms (snd (snd (receive_loop (DeviceSession_init did) msgs le))))
            \<subseteq> set (room_handles (fst (snd (receive_loop (DeviceSession_init did) msgs le)))))"
proof -
  obtain x s tr where l: "receive_loop (DeviceSession_init did) msgs le = (x, s, tr)"
    by (cases "receive_loop (DeviceSession_init did) msgs le")
  from receive_loop_idle_clear [OF init_idle_clear l] have 1: "idle_clear s"
    by simp
  have 2: "is_active s \<longrightarrow> session_id s \<noteq> PyNone" if "list_all start_carries_id msgs"
    using receive_loop_has_id [OF init_idle_clear _ that l]
    by (simp add: DeviceSession_init_def)
  have i: "room_inv [] (DeviceSession_init did)"
    by (simp add: room_inv_def)
  have 3: "room_inv (open_rooms tr) s" if "starts_when_idle (DeviceSession_init did) msgs"
    using receive_loop_rooms [OF i that l] by (simp add: open_rooms_def)
  have a: "(room s \<noteq> None) = (\<not> is_idle s)"
    using 1 by (auto simp add: idle_clear_def is_idle_def split: if_splits)
  have b: "is_idle s \<longrightarrow> session_id s = PyNone"
    using 1 by (auto simp add: idle_clear_def is_idle_def split: if_splits)
  have c: "list_all start_carries_id msgs \<longrightarrow> session_inv s"
    using 1 2 by (auto simp add: session_inv_def idle_clear_def is_idle_def split: if_splits)
  have d: "starts_when_idle (DeviceSession_init did) msgs \<longrightarrow>
           length (open_rooms tr) \<le> 1 \<and> set (open_rooms tr) \<subseteq> set (room_handles s)"
    using 3 by (auto simp add: room_inv_def room_handles_def split: option.splits)
  from a b c d show ?thesis
    by (simp add: l)
qed

theorem session_invariant_reachable_witness:
  "list_all start_carries_id ex_streaming_run
   \<and> starts_when_idle (DeviceSession_init 7) ex_streaming_run
   \<and> session_inv (fst (snd (receive_loop (DeviceSession_init 7) ex_streaming_run ClosedOK)))
   \<and> \<not> is_idle (fst (snd (receive_loop (DeviceSession_init 7) ex_streaming_run ClosedOK)))
   \<and> open_rooms (snd (snd (receive_loop (DeviceSession_init 7) ex_streaming_run ClosedOK)))
       = [Room 1]
   \<and> set (open_rooms (snd (snd (receive_loop (DeviceSession_init 7) ex_streaming_run ClosedOK))))
       \<subseteq> set (room_handles
                 (fst (snd (receive_loop (DeviceSession_init 7) ex_streaming_run ClosedOK))))
   \<and> list_all start_carries_id ex_run
   \<and> starts_when_idle (DeviceSession_init 7) ex_run
   \<and> session_inv (fst (snd (receive_loop (DeviceSession_init 7) ex_run ClosedOK)))
   \<and> is_idle (fst (snd (receive_loop (DeviceSession_init 7) ex_run ClosedOK)))
   \<and> length (open_rooms (snd (snd (receive_loop (DeviceSession_init 7) ex_run ClosedOK)))) \<le> 1"
proof -
  have a: "list_all start_carries_id ex_streaming_run"
    by (simp add: ex_streaming_run_def ex_start_abc_def ex_fields_abc_def dict_get_def)
  have b: "list_all start_carries_id ex_run"
    by (simp add: ex_run_def ex_start_abc_def ex_fields_abc_def ex_end_def dict_get_def)
  have c: "\<not> is_idle (fst (snd (receive_loop (DeviceSession_init 7) ex_streaming_run ClosedOK)))"
    by (simp add: is_idle_def handle_message_def start_session_def process_audio_chunk_def
        frombuffer_def send_message_def dict_get_def create_token_def Let_def
        DeviceSession_init_def ex_streaming_run_def ex_env_def ex_start_abc_def
        ex_fields_abc_def)
  have d: "is_idle (fst (snd (receive_loop (DeviceSession_init 7) ex_run ClosedOK)))"
    by (simp add: is_idle_def handle_message_def start_session_def end_session_def
        process_audio_chunk_def frombuffer_def send_message_def dict_get_def create_token_def
        Let_def DeviceSession_init_def ex_run_def ex_env_def ex_env_capture_fails_def
        ex_start_abc_def ex_fields_abc_def ex_end_def)
  have e: "starts_when_idle (DeviceSession_init 7) ex_streaming_run"
    by (simp add: is_idle_def handle_message_def start_session_def process_audio_chunk_def
        frombuffer_def send_message_def dict_get_def create_token_def Let_def
        DeviceSession_init_def ex_streaming_run_def ex_env_def ex_start_abc_def
        ex_fields_abc_def)
  have f: "starts_when_idle (DeviceSession_init 7) ex_run"
    by (simp add: is_idle_def handle_message_def start_session_def end_session_def
        process_audio_chunk_def frombuffer_def send_message_def dict_get_def create_token_def
        Let_def DeviceSession_init_def ex_run_def ex_env_def ex_env_capture_fails_def
        ex_start_abc_def ex_fields_abc_def ex_end_def)
  have g: "open_rooms (snd (snd (receive_loop (DeviceSession_init 7) ex_streaming_run ClosedOK)))
       = [Room 1]"
    by (simp add: open_rooms_def room_step_def handle_message_def start_session_def
        process_audio_chunk_def frombuffer_def send_message_def dict_get_def create_token_def
        Let_def DeviceSession_init_def ex_streaming_run_def ex_env_def ex_start_abc_def
        ex_fields_abc_def)
  from session_invariant_reachable [of 7 ex_streaming_run ClosedOK]
       session_invariant_reachable [of 7 ex_run ClosedOK] a b c d e f g
  show ?thesis by blast
qed

subsection \<open>The connection handler\<close>

lemma send_message_logs:
  "count_list (send_message ok m) (Log LogCleanedUp) = 0"
  "count_list (send_message ok m) (Log LogEnding) = 0"
  by (simp_all add: send_message_def)

lemma handle_message_no_cleanup:
  "handle_message e s m = (r, s', tr) \<Longrightarrow> count_list tr (Log LogCleanedUp) = 0"
  by (auto simp add: handle_message_def Let_def start_session_def end_session_def
      process_audio_chunk_def send_message_logs
      split: message.splits text_frame.splits if_splits prod.splits sum.splits option.splits)

lemma receive_loop_no_cleanup:
  "receive_loop s ms le = (x, s', tr) \<Longrightarrow> count_list tr (Log LogCleanedUp) = 0"
proof (induction ms arbitrary: s x s' tr)
  case Nil
  then show ?case by simp
next
  case (Cons a ms)
  obtain m e where a: "a = (m, e)" by (cases a)
  obtain r s1 tr1 where h: "handle_message e s m = (r, s1, tr1)"
    by (cases "handle_message e s m")
  note hc = handle_message_no_cleanup [OF h]
  show ?case
  proof (cases r)
    case (Inl err)
    with Cons.prems a h hc show ?thesis by simp
  next
    case (Inr u)
    obtain x2 s2 tr2 where l: "receive_loop s1 ms le = (x2, s2, tr2)"
      by (cases "receive_loop s1 ms le")
    from Cons.IH [OF l] Cons.prems a h hc Inr l show ?thesis
      by auto
  qed
qed

lemma exit_log_logs:
  "count_list (exit_log x) (Log LogCleanedUp) = 0"
  "count_list (exit_log x) (Log LogEnding) = 0"
  by (cases x; simp)+

lemma end_session_logs:
  "count_list (snd (end_session e s)) (Log LogCleanedUp) = 0"
  "count_list (snd (end_session e s)) (Log LogEnding) = (if is_active s then 1 else 0)"
  by (simp_all add: end_session_def Let_def send_message_logs split: option.splits)

lemma end_session_clears:
  "is_active s \<Longrightarrow> end_session e s = (s', tr) \<Longrightarrow>
   \<not> is_active s' \<and> room s' = None \<and> session_id s' = PyNone \<and> audio_source s' = None"
  by (auto simp add: end_session_def Let_def split: option.splits)

text \<open>
  C4. Whatever the messages were and however the receive loop stopped (the peer closed, the
  socket failed, or a handler raised), the cleanup ran exactly once after the loop:
  \<^verbatim>\<open>end_session\<close> ran in it exactly when the session was not idle at that point, the
  session is idle afterwards with no room handle and no session id, and the connection's
  entry is gone from the registry while every other entry is as it was.
\<close>

theorem cleanup_runs_once:
  "case receive_loop (DeviceSession_init did) msgs le of
     (x, s, ltr) \<Rightarrow>
       (case handle_device devices did msgs le ce of
          (devices', s', tr) \<Rightarrow>
            devices' = devices(did := None)
            \<and> is_idle s' \<and> room s' = None \<and> session_id s' = PyNone
            \<and> count_list tr (Log LogCleanedUp) = 1
            \<and> count_list tr (Log LogEnding) =
                count_list ltr (Log LogEnding) + (if is_idle s then 0 else 1)
            \<and> tr = Log LogDeviceConnected # ltr @ exit_log x
                     @ (if is_idle s then [] else snd (end_session ce s)) @ [Log LogCleanedUp])"
proof -
  obtain x s ltr where l: "receive_loop (DeviceSession_init did) msgs le = (x, s, ltr)"
    by (cases "receive_loop (DeviceSession_init did) msgs le")
  from receive_loop_idle_clear [OF init_idle_clear l] have ic: "idle_clear s"
    by simp
  note nc = receive_loop_no_cleanup [OF l]
  show ?thesis
  proof (cases "is_active s")
    case True
    obtain s' etr where e: "end_session ce s = (s', etr)"
      by (cases "end_session ce s")
    from end_session_clears [OF True e] end_session_logs [of ce s] e True l nc
    show ?thesis
      by (simp add: handle_device_def cleanup_def Let_def is_idle_def exit_log_logs)
  next
    case False
    with ic l nc show ?thesis
      by (simp add: handle_device_def cleanup_def Let_def is_idle_def idle_clear_def
          exit_log_logs)
  qed
qed

theorem cleanup_runs_once_witness:
  "fst (handle_device ex_devices 7 [(ex_start_abc, ex_env)] IOError ex_env) 7 = None
   \<and> is_idle (fst (snd (handle_device ex_devices 7 [(ex_start_abc, ex_env)] IOError ex_env)))
   \<and> count_list (snd (snd (handle_device ex_devices 7 [(ex_start_abc, ex_env)] IOError ex_env)))
        (Log LogCleanedUp) = 1
   \<and> count_list (snd (snd (handle_device ex_devices 7 [(ex_start_abc, ex_env)] IOError ex_env)))
        (Log LogEnding) = 1
   \<and> \<not> is_idle (fst (snd (receive_loop (DeviceSession_init 7) [(ex_start_abc, ex_env)] IOError)))"
proof -
  have l: "receive_loop (DeviceSession_init 7) [(ex_start_abc, ex_env)] IOError =
      (ExitException, ex_active,
       [Log LogStarting, RoomConnect (Room 1) LIVEKIT_URL (AccessToken 7 (PyStr ''abc'')) True,
        Log LogConnected, RoomPublish (Room 1) True, Log LogPublished,
        RoomOnTrackSubscribed (Room 1), WsSendText (SessionStarted (PyStr ''abc'')) True])"
    by (simp add: handle_message_def ex_env_def DeviceSession_init_def ex_start_abc_def
        ex_fields_abc_def dict_get_def start_session_def send_message_def ex_active_def
        create_token_def SAMPLE_RATE_def CHANNELS_def Let_def)
  have a: "\<not> is_idle ex_active"
    by (simp add: is_idle_def ex_active_def)
  have r: "fst (snd (receive_loop (DeviceSession_init 7) [(ex_start_abc, ex_env)] IOError))
             = ex_active"
    by (simp only: l fst_conv snd_conv)
  note w = cleanup_runs_once [where did = 7 and msgs = "[(ex_start_abc, ex_env)]"
             and le = IOError and devices = ex_devices and ce = ex_env, unfolded l]
  from w a show ?thesis
    unfolding r by (auto split: prod.splits)
qed

lemma receive_loop_append:
  "receive_loop s pre ClosedOK = (ExitNormal, s1, tr1) \<Longrightarrow>
   receive_loop s (pre @ post) le =
     (case receive_loop s1 post le of (x, s2, tr2) \<Rightarrow> (x, s2, tr1 @ tr2))"
proof (induction pre arbitrary: s tr1)
  case Nil
  then show ?case by (simp split: prod.splits)
next
  case (Cons a pre)
  obtain m e where a: "a = (m, e)" by (cases a)
  obtain r s' tr' where h: "handle_message e s m = (r, s', tr')"
    by (cases "handle_message e s m")
  show ?case
  proof (cases r)
    case (Inl err)
    with Cons.prems a h show ?thesis by simp
  next
    case (Inr u)
    obtain x2 s2 tr2 where l: "receive_loop s' pre ClosedOK = (x2, s2, tr2)"
      by (cases "receive_loop s' pre ClosedOK")
    with Cons.prems a h Inr have eq: "x2 = ExitNormal" "s2 = s1" "tr1 = tr' @ tr2"
      by simp_all
    from Cons.IH [of s' tr2] l eq a h Inr show ?thesis
      by (simp split: prod.splits)
  qed
qed

lemma handle_start_connect_fails:
  assumes "dict_get msg ''type'' = PyStr ''start_session''" and "\<not> connect_ok e"
  shows "handle_message e s (Text (JsonObject msg)) =
     (Inl ConnectFailed,
      s\<lparr>session_id := dict_get msg ''session_id'', is_active := True, audio_frames_sent := 0,
        room := Some (Room (new_room e))\<rparr>,
      [Log LogStarting,
       RoomConnect (Room (new_room e)) LIVEKIT_URL
         (create_token (dict_get msg ''session_id'') (device_id s)) False,
       Log LogConnectFailed])"
  using assms by (simp add: handle_message_def start_session_def Let_def)

text \<open>
  C2, as stated, fails: when connect raises, \<^verbatim>\<open>start_session\<close> logs, re-raises and
  leaves the session active, and it writes nothing to the device. All that the device is
  sent on the whole connection is the \<^verbatim>\<open>session_ended\<close> of the cleanup; the message
  vocabulary has no error message.
\<close>

theorem connect_failure_sends_no_error:
  "is_active (fst (snd (handle_message ex_env_connect_fails (DeviceSession_init 7) ex_start_abc)))
   \<and> filter is_ws_call
       (snd (snd (handle_message ex_env_connect_fails (DeviceSession_init 7) ex_start_abc))) = []
   \<and> filter is_ws_call
       (snd (snd (handle_device ex_devices 7 [(ex_start_abc, ex_env_connect_fails)] ClosedOK ex_env)))
     = [WsSendText (SessionEnded (PyStr ''abc'') 0) True]"
  by (simp add: handle_device_def cleanup_def end_session_def handle_message_def ex_env_def
      ex_env_connect_fails_def DeviceSession_init_def ex_start_abc_def ex_fields_abc_def
      ex_devices_def dict_get_def start_session_def send_message_def create_token_def
      SAMPLE_RATE_def CHANNELS_def Let_def)

text \<open>
  C2, amended. When the connect step of a \<^verbatim>\<open>start_session\<close> fails, the exception ends
  the receive loop of the connection (later messages are not handled), and the cleanup of
  the connection ends the session: it is idle afterwards, the room handle is released, the
  registry entry is removed, and the device is sent \<^verbatim>\<open>session_ended\<close> with the session
  id of the attempt and \<^verbatim>\<open>frames_sent\<close> zero, and nothing else.
\<close>

theorem connect_failure_ends_connection:
  assumes pre: "receive_loop (DeviceSession_init did) pre ClosedOK = (ExitNormal, s, tr)"
    and ty: "dict_get msg ''type'' = PyStr ''start_session''"
    and cf: "\<not> connect_ok e"
  shows "handle_device devices did (pre @ (Text (JsonObject msg), e) # rest) le ce =
     (devices(did := None),
      s\<lparr>session_id := PyNone, is_active := False, audio_frames_sent := 0, room := None,
        audio_source := None\<rparr>,
      Log LogDeviceConnected # tr
      @ [Log LogStarting,
         RoomConnect (Room (new_room e)) LIVEKIT_URL
           (create_token (dict_get msg ''session_id'') did) False,
         Log LogConnectFailed, Log LogError, Log LogEnding, RoomDisconnect (Room (new_room e))]
      @ send_message (send_ok ce) (SessionEnded (dict_get msg ''session_id'') 0)
      @ [Log LogCleanedUp])"
proof -
  from receive_loop_idle_clear [OF init_idle_clear pre] have d: "device_id s = did"
    by (simp add: DeviceSession_init_def)
  have l: "receive_loop (DeviceSession_init did) (pre @ (Text (JsonObject msg), e) # rest) le =
     (ExitException,
      s\<lparr>session_id := dict_get msg ''session_id'', is_active := True, audio_frames_sent := 0,
        room := Some (Room (new_room e))\<rparr>,
      tr @ [Log LogStarting,
       RoomConnect (Room (new_room e)) LIVEKIT_URL
         (create_token (dict_get msg ''session_id'') did) False,
       Log LogConnectFailed])"
    by (simp add: receive_loop_append [OF pre] handle_start_connect_fails [OF ty cf] d)
  show ?thesis
    by (simp add: handle_device_def l cleanup_def end_session_def Let_def)
qed

theorem connect_failure_ends_connection_witness:
  "receive_loop (DeviceSession_init 7) [(ex_device_info, ex_env)] ClosedOK
     = (ExitNormal, DeviceSession_init 7, [Log LogDeviceInfo, WsSendText Ready True])
   \<and> dict_get ex_fields_abc ''type'' = PyStr ''start_session''
   \<and> \<not> connect_ok ex_env_connect_fails
   \<and> is_idle (fst (snd (handle_device ex_devices 7
        ([(ex_device_info, ex_env)] @ (Text (JsonObject ex_fields_abc), ex_env_connect_fails)
           # [(ex_end, ex_env)]) ClosedOK ex_env)))
   \<and> filter is_ws_call (snd (snd (handle_device ex_devices 7
        ([(ex_device_info, ex_env)] @ (Text (JsonObject ex_fields_abc), ex_env_connect_fails)
           # [(ex_end, ex_env)]) ClosedOK ex_env)))
     = [WsSendText Ready True, WsSendText (SessionEnded (PyStr ''abc'') 0) True]"
proof -
  have p: "receive_loop (DeviceSession_init 7) [(ex_device_info, ex_env)] ClosedOK
     = (ExitNormal, DeviceSession_init 7, [Log LogDeviceInfo, WsSendText Ready True])"
    by (simp add: handle_message_def ex_device_info_def dict_get_def send_message_def ex_env_def)
  have t: "dict_get ex_fields_abc ''type'' = PyStr ''start_session''"
    by (simp add: dict_get_def ex_fields_abc_def)
  have sid: "dict_get ex_fields_abc ''session_id'' = PyStr ''abc''"
    by (simp add: dict_get_def ex_fields_abc_def)
  have c: "\<not> connect_ok ex_env_connect_fails"
    by (simp add: ex_env_connect_fails_def)
  from connect_failure_ends_connection
         [OF p t c, of ex_devices "[(ex_end, ex_env)]" ClosedOK ex_env] p t c
  show ?thesis
    by (simp add: sid send_message_def is_idle_def ex_env_def)
qed

end
